theory Spec2Isabelle
  imports Complex_Main
begin

section \<open>Python values used by the integration\<close>

text \<open>
  A Python \<open>str\<close> is the sequence of its Unicode code points, so it is modelled as a list
  of natural numbers; \<open>lit\<close> turns an ASCII literal of the source into that form.
\<close>

type_synonym str = "nat list"

definition lit :: "string \<Rightarrow> str" where
  "lit s = map of_char s"

text \<open>\<open>s.startswith(p)\<close>.\<close>

definition startswith :: "str \<Rightarrow> str \<Rightarrow> bool" where
  "startswith s p = (take (length p) s = p)"

text \<open>
  \<open>str.isspace\<close> on one code point, as CPython decides it: U+0009..U+000D,
  U+001C..U+0020, U+0085, U+00A0, U+1680, U+2000..U+200A, U+2028, U+2029, U+202F,
  U+205F and U+3000.
\<close>

definition isspace :: "nat \<Rightarrow> bool" where
  "isspace c =
     ((9 \<le> c \<and> c \<le> 13) \<or> (28 \<le> c \<and> c \<le> 32) \<or> c = 133 \<or> c = 160 \<or> c = 5760
      \<or> (8192 \<le> c \<and> c \<le> 8202) \<or> c = 8232 \<or> c = 8233 \<or> c = 8239 \<or> c = 8287
      \<or> c = 12288)"

text \<open>\<open>s.lstrip()\<close> with no argument removes every leading whitespace character.\<close>

definition lstrip :: "str \<Rightarrow> str" where
  "lstrip s = dropWhile isspace s"

text \<open>\<open>s.rstrip("\n")\<close> removes every trailing line feed (code point 10).\<close>

definition rstrip_nl :: "str \<Rightarrow> str" where
  "rstrip_nl s = rev (dropWhile (\<lambda>c. c = 10) (rev s))"

section \<open>The SSE listener of \<open>ApiPingSensor\<close> (sensor.py)\<close>

text \<open>
  What the listener does to the outside, in the order it does it: log records, writes of
  the entity state (\<open>async_write_ha_state\<close>, with the value written), dispatcher signals
  (\<open>async_dispatcher_send(hass, EVENT_SSE_UPDATE)\<close>) and sleeps (with the delay).
\<close>

datatype log_record =
    Connecting
  | ResponseStatus int
  | AuthFailed
  | EventAssembled str
  | SseError

datatype effect =
    Log log_record
  | WriteHaState "str option"
  | DispatcherSend
  | Sleep rat

record api_ping_sensor =
  attr_native_value :: "str option"
  effects :: "effect list"

definition ApiPingSensor :: api_ping_sensor where
  "ApiPingSensor = \<lparr>attr_native_value = None, effects = []\<rparr>"

definition emit :: "effect list \<Rightarrow> api_ping_sensor \<Rightarrow> api_ping_sensor" where
  "emit es s = s\<lparr>effects := effects s @ es\<rparr>"

text \<open>
  One item of \<open>resp.content\<close>, as the loop body meets it: the value of \<open>self._running\<close>
  when the item arrives (another coroutine may have cleared it), and the result of
  \<open>raw.decode("utf-8")\<close>, \<open>None\<close> when decoding raises.
\<close>

datatype chunk = Chunk (running: bool) (decoded: "str option")

text \<open>
  Lines 97 to 102: log the event, store it as the state, write the state, signal the
  other entities.
\<close>

definition publish :: "str \<Rightarrow> api_ping_sensor \<Rightarrow> api_ping_sensor" where
  "publish v s = emit [Log (EventAssembled v), WriteHaState (Some v), DispatcherSend]
                   (s\<lparr>attr_native_value := Some v\<rparr>)"

text \<open>
  Lines 95 to 110: one decoded line, already right-stripped, against the buffer.
  The result is the new buffer and the sensor.
\<close>

definition feed :: "str \<Rightarrow> str \<Rightarrow> api_ping_sensor \<Rightarrow> str \<times> api_ping_sensor" where
  "feed line buffer s =
     (if line = [] then
        (if buffer \<noteq> [] then ([], publish buffer s) else (buffer, s))
      else if startswith line (lit '':'') then (buffer, s)
      else if startswith line (lit ''data:'') then (buffer @ lstrip (drop 5 line), s)
      else (buffer, s))"

text \<open>
  Lines 87 to 110, the \<open>async for\<close> over the body. The first component of the result
  says whether the loop was left by \<open>break\<close>; the second is the buffer at that moment.
\<close>

fun read_content :: "chunk list \<Rightarrow> str \<Rightarrow> api_ping_sensor \<Rightarrow> bool \<times> str \<times> api_ping_sensor" where
  "read_content [] buffer s = (False, buffer, s)"
| "read_content (c # cs) buffer s =
     (if \<not> running c then (True, buffer, s)
      else case decoded c of
             None \<Rightarrow> read_content cs buffer s
           | Some text \<Rightarrow>
               (case feed (rstrip_nl text) buffer s of
                  (buffer', s') \<Rightarrow> read_content cs buffer' s'))"

text \<open>
  How one pass of the \<open>while self._running\<close> loop meets the world: the flag at the loop
  test, what \<open>session.get\<close> and the body do, the reading of the loop clock used for the
  jitter, and whether \<open>asyncio.sleep\<close> is interrupted by a cancellation.
\<close>

datatype stream_end = EndOfStream | ReadError | ReadCancelled

datatype connection =
    ConnectError
  | ConnectCancelled
  | Response int "chunk list" stream_end

record attempt =
  running_at_test :: bool
  connection :: connection
  loop_time :: rat
  sleep_cancelled :: bool

datatype control = Continue | Returned | Cancelled

record listener =
  self :: api_ping_sensor
  backoff :: int

definition write_log :: "log_record \<Rightarrow> listener \<Rightarrow> listener" where
  "write_log r st = st\<lparr>self := emit [Log r] (self st)\<rparr>"

text \<open>
  \<open>backoff * (0.8 + 0.4 * (loop.time() % 1))\<close>, over the rationals (the rounding of the
  floating-point product is left out).
\<close>

definition jitter_delay :: "int \<Rightarrow> rat \<Rightarrow> rat" where
  "jitter_delay b t = of_int b * (4 / 5 + 2 / 5 * (t - of_int \<lfloor>t\<rfloor>))"

text \<open>
  The three lines the source has twice (79 to 81 and 116 to 118): compute the delay,
  sleep, double the backoff up to 300. A cancellation during the sleep leaves the loop.
\<close>

definition sleep_and_double :: "attempt \<Rightarrow> listener \<Rightarrow> control \<times> listener" where
  "sleep_and_double a st =
     (let st1 = st\<lparr>self := emit [Sleep (jitter_delay (backoff st) (loop_time a))] (self st)\<rparr>
      in if sleep_cancelled a then (Cancelled, st1)
         else (Continue, st1\<lparr>backoff := min (backoff st * 2) 300\<rparr>))"

text \<open>One pass of the loop, lines 68 to 118.\<close>

definition iteration :: "attempt \<Rightarrow> listener \<Rightarrow> control \<times> listener" where
  "iteration a st =
     (if \<not> running_at_test a then (Returned, st)
      else
        let st1 = write_log Connecting st in
        case connection a of
          ConnectCancelled \<Rightarrow> (Cancelled, st1)
        | ConnectError \<Rightarrow> sleep_and_double a (write_log SseError st1)
        | Response status content ending \<Rightarrow>
            let st2 = write_log (ResponseStatus status) st1 in
            if status \<noteq> 200 then
              sleep_and_double a (if status = 401 then write_log AuthFailed st2 else st2)
            else
              let st3 = st2\<lparr>backoff := 5\<rparr> in
              (case read_content content [] (self st3) of
                 (broke, buffer, s') \<Rightarrow>
                   let st4 = st3\<lparr>self := s'\<rparr> in
                   if broke then (Continue, st4)
                   else (case ending of
                           EndOfStream \<Rightarrow> (Continue, st4)
                         | ReadCancelled \<Rightarrow> (Cancelled, st4)
                         | ReadError \<Rightarrow> sleep_and_double a (write_log SseError st4))))"

text \<open>
  The loop over a finite run of attempts; \<open>Continue\<close> says the loop is still going
  when the attempts given are used up.
\<close>

fun run :: "attempt list \<Rightarrow> listener \<Rightarrow> control \<times> listener" where
  "run [] st = (Continue, st)"
| "run (a # rest) st =
     (case iteration a st of
        (Continue, st') \<Rightarrow> run rest st'
      | (Returned, st') \<Rightarrow> (Returned, st')
      | (Cancelled, st') \<Rightarrow> (Cancelled, st'))"

text \<open>\<open>_listen_sse\<close>: the loop entered with \<open>backoff = 10\<close> (line 67).\<close>

definition listen_sse :: "api_ping_sensor \<Rightarrow> attempt list \<Rightarrow> control \<times> listener" where
  "listen_sse s attempts = run attempts \<lparr>self = s, backoff = 10\<rparr>"

text \<open>The events the sensor published: the values it wrote as its state, in order.\<close>

fun published :: "effect list \<Rightarrow> str list" where
  "published [] = []"
| "published (WriteHaState (Some v) # es) = v # published es"
| "published (e # es) = published es"

section \<open>Kinds of attempts\<close>

text \<open>
  An attempt that fails before any body is read: the loop test passes, the request
  raises or answers with a status other than 200, and the sleep is not cancelled.
\<close>

definition fails_to_stream :: "attempt \<Rightarrow> bool" where
  "fails_to_stream a =
     (running_at_test a \<and> \<not> sleep_cancelled a \<and>
      (case connection a of
         ConnectError \<Rightarrow> True
       | ConnectCancelled \<Rightarrow> False
       | Response status content ending \<Rightarrow> status \<noteq> 200))"

text \<open>Some item of the body arrives when \<open>self._running\<close> is already false.\<close>

definition breaks :: "chunk list \<Rightarrow> bool" where
  "breaks content = list_ex (\<lambda>c. \<not> running c) content"

text \<open>
  An attempt that connects (status 200) and whose body ends without an exception: by the
  end of the stream or by the \<open>break\<close>.
\<close>

definition streams_to_end :: "attempt \<Rightarrow> bool" where
  "streams_to_end a =
     (running_at_test a \<and>
      (case connection a of
         Response status content ending \<Rightarrow>
           status = 200 \<and> (breaks content \<or> ending = EndOfStream)
       | _ \<Rightarrow> False))"

text \<open>An attempt that connects (status 200) and whose body then raises.\<close>

definition streams_to_error :: "attempt \<Rightarrow> bool" where
  "streams_to_error a =
     (running_at_test a \<and> \<not> sleep_cancelled a \<and>
      (case connection a of
         Response status content ending \<Rightarrow>
           status = 200 \<and> \<not> breaks content \<and> ending = ReadError
       | _ \<Rightarrow> False))"

text \<open>Concrete attempts: a 500 answer, an empty 200 body that ends, one that raises.\<close>

definition attempt_500 :: attempt where
  "attempt_500 = \<lparr>running_at_test = True, connection = Response 500 [] EndOfStream,
                  loop_time = 0, sleep_cancelled = False\<rparr>"

definition attempt_200_end :: attempt where
  "attempt_200_end = \<lparr>running_at_test = True, connection = Response 200 [] EndOfStream,
                      loop_time = 0, sleep_cancelled = False\<rparr>"

definition attempt_200_error :: attempt where
  "attempt_200_error = \<lparr>running_at_test = True, connection = Response 200 [] ReadError,
                        loop_time = 0, sleep_cancelled = False\<rparr>"

definition attempt_401 :: attempt where
  "attempt_401 = \<lparr>running_at_test = True, connection = Response 401 [] EndOfStream,
                  loop_time = 0, sleep_cancelled = False\<rparr>"

section \<open>Lines and blocks of the event stream\<close>

text \<open>An item that arrives while the sensor is running and decodes to \<open>raw\<close>.\<close>

definition line_chunk :: "str \<Rightarrow> chunk" where
  "line_chunk raw = Chunk True (Some raw)"

definition attempt_200_blank :: attempt where
  "attempt_200_blank =
     \<lparr>running_at_test = True,
      connection = Response 200 [line_chunk (lit ''\<newline>'')] EndOfStream,
      loop_time = 0, sleep_cancelled = False\<rparr>"

text \<open>
  What the \<open>data:\<close> lines among \<open>raws\<close> add to the buffer, one after the other: each
  line right-stripped of line feeds, without its first five characters, left-stripped
  as line 108 does.
\<close>

definition data_payloads :: "str list \<Rightarrow> str" where
  "data_payloads raws =
     concat (map (\<lambda>r. lstrip (drop 5 (rstrip_nl r)))
               (filter (\<lambda>r. startswith (rstrip_nl r) (lit ''data:'')) raws))"

text \<open>
  The payload of a \<open>data:\<close> line in the words of the specification (section 4.1): the
  prefix removed and at most one leading space (code point 32) removed. It is here only
  to be compared with what the source appends.
\<close>

definition spec_data_payload :: "str \<Rightarrow> str" where
  "spec_data_payload line =
     (case drop 5 line of
        [] \<Rightarrow> []
      | c # rest \<Rightarrow> if c = 32 then rest else c # rest)"

text \<open>
  Items that hold no blank line: each arrives while the sensor is running and either
  fails to decode or is not empty once right-stripped.
\<close>

definition unterminated :: "chunk list \<Rightarrow> bool" where
  "unterminated tail =
     list_all (\<lambda>c. running c \<and>
                 (case decoded c of None \<Rightarrow> True | Some text \<Rightarrow> rstrip_nl text \<noteq> [])) tail"

text \<open>No state the sensor has written is the empty string.\<close>

definition no_empty_event :: "api_ping_sensor \<Rightarrow> bool" where
  "no_empty_event s = ([] \<notin> set (published (effects s)))"

section \<open>The snapshot fetchers (sensor.py, binary\_sensor.py)\<close>

text \<open>
  What \<open>resp.json()\<close> returns. A JSON object is the Python dict, kept as an association
  list in which the first binding of a key is the one the dict holds. A float is kept as
  a rational (infinities and NaN, which are all truthy, are left out).
\<close>

datatype json =
    JNull
  | JBool bool
  | JInt int
  | JFloat rat
  | JStr str
  | JArr "json list"
  | JObj "(str \<times> json) list"

text \<open>Python's truth value of such a value.\<close>

fun truthy :: "json \<Rightarrow> bool" where
  "truthy JNull = False"
| "truthy (JBool b) = b"
| "truthy (JInt i) = (i \<noteq> 0)"
| "truthy (JFloat x) = (x \<noteq> 0)"
| "truthy (JStr s) = (s \<noteq> [])"
| "truthy (JArr xs) = (xs \<noteq> [])"
| "truthy (JObj kvs) = (kvs \<noteq> [])"

text \<open>\<open>a or b\<close>, \<open>bool(v)\<close> and \<open>d.get(k, dflt)\<close> (\<open>d.get(k)\<close> has \<open>dflt = None\<close>).\<close>

definition py_or :: "json \<Rightarrow> json \<Rightarrow> json" where
  "py_or a b = (if truthy a then a else b)"

definition py_bool :: "json \<Rightarrow> json" where
  "py_bool v = JBool (truthy v)"

definition dict_get :: "(str \<times> json) list \<Rightarrow> str \<Rightarrow> json \<Rightarrow> json" where
  "dict_get d k dflt = (case map_of d k of None \<Rightarrow> dflt | Some v \<Rightarrow> v)"

text \<open>
  \<open>data.get\<close> on a value that is not a dict raises \<open>AttributeError\<close>, outside the
  \<open>try\<close> block of the fetchers.
\<close>

datatype exn = AttributeError

text \<open>
  What the GET of a fetcher meets: the request (or the reading of the body) raises, or
  there is a status and, when the body is asked for, the result of \<open>resp.json()\<close>,
  \<open>None\<close> when that raises.
\<close>

datatype http_result = RequestError | HttpResponse int "json option"

text \<open>
  The observable state of the entities: the attributes (\<open>_attrs\<close>), the number of calls of
  \<open>async_write_ha_state\<close>, and \<open>_is_on\<close> or \<open>_attr_native_value\<close>. The two
  \<open>_ReservaBase\<close> sensors also hold their endpoint.
\<close>

record entity =
  attrs :: "(str \<times> json) list"
  state_writes :: nat

record ocupado_binary_sensor = entity +
  is_on :: bool

record reserva_entity = entity +
  native_value :: json

record reserva_base = reserva_entity +
  endpoint :: str

definition OcupadoBinarySensor :: ocupado_binary_sensor where
  "OcupadoBinarySensor = \<lparr>attrs = [], state_writes = 0, is_on = False\<rparr>"

definition ReservaHoySensor :: reserva_entity where
  "ReservaHoySensor = \<lparr>attrs = [], state_writes = 0, native_value = JNull\<rparr>"

definition ReservaBase :: "str \<Rightarrow> reserva_base" where
  "ReservaBase ep = \<lparr>attrs = [], state_writes = 0, native_value = JNull, endpoint = ep\<rparr>"

definition ReservaAnteriorSensor :: reserva_base where
  "ReservaAnteriorSensor = ReservaBase (lit ''/api/prev'')"

definition ReservaProximaSensor :: reserva_base where
  "ReservaProximaSensor = ReservaBase (lit ''/api/next'')"

text \<open>\<open>OcupadoBinarySensor._refresh_from_api\<close>, lines 68 to 77 of binary\_sensor.py.\<close>

fun ocupado_update :: "json \<Rightarrow> ocupado_binary_sensor \<Rightarrow> exn + ocupado_binary_sensor" where
  "ocupado_update (JObj data) s =
     (let has_res = truthy (dict_get data (lit ''has_reservation'') (JBool False)) in
      Inr (s\<lparr>is_on := has_res,
             attrs :=
               [(lit ''reserva_hoy'', JBool has_res),
                (lit ''nombre'', dict_get data (lit ''user_name'') JNull),
                (lit ''cumpleanos'', py_bool (dict_get data (lit ''is_birthday'') (JBool False))),
                (lit ''festivo'', py_bool (dict_get data (lit ''is_holiday'') (JBool False))),
                (lit ''foto_perfil_url'', dict_get data (lit ''profile_pic_url'') JNull)],
             state_writes := Suc (state_writes s)\<rparr>))"
| "ocupado_update _ s = Inl AttributeError"

text \<open>\<open>ReservaHoySensor._refresh_from_api\<close>, lines 182 to 193 of sensor.py.\<close>

fun hoy_update :: "json \<Rightarrow> reserva_entity \<Rightarrow> exn + reserva_entity" where
  "hoy_update (JObj data) s =
     (let has_res = dict_get data (lit ''has_reservation'') JNull in
      Inr (s\<lparr>native_value :=
               (if truthy has_res
                then py_or (dict_get data (lit ''user_name'') JNull) (JStr (lit ''Desconocido''))
                else JStr (lit ''Libre'')),
             attrs :=
               [(lit ''cumpleanos'', py_bool (dict_get data (lit ''is_birthday'') (JBool False))),
                (lit ''festivo'', py_bool (dict_get data (lit ''is_holiday'') (JBool False))),
                (lit ''foto_perfil_url'', dict_get data (lit ''profile_pic_url'') JNull)],
             state_writes := Suc (state_writes s)\<rparr>))"
| "hoy_update _ s = Inl AttributeError"

text \<open>\<open>_ReservaBase._refresh_from_api\<close>, lines 252 to 264 of sensor.py.\<close>

fun base_update :: "json \<Rightarrow> reserva_base \<Rightarrow> exn + reserva_base" where
  "base_update (JObj data) s =
     Inr (s\<lparr>native_value :=
              (if truthy (dict_get data (lit ''has_reservation'') JNull)
               then py_or (dict_get data (lit ''user_name'') JNull)
                      (py_or (dict_get data (lit ''date'') JNull) (JStr (lit ''Desconocido'')))
               else JStr (lit ''Ninguna'')),
            attrs :=
              [(lit ''nombre'', dict_get data (lit ''user_name'') JNull),
               (lit ''cumpleanos'', py_bool (dict_get data (lit ''is_birthday'') (JBool False))),
               (lit ''festivo'', py_bool (dict_get data (lit ''is_holiday'') (JBool False))),
               (lit ''foto_perfil_url'', dict_get data (lit ''profile_pic_url'') JNull),
               (lit ''fecha'', dict_get data (lit ''date'') JNull)],
            state_writes := Suc (state_writes s)\<rparr>)"
| "base_update _ s = Inl AttributeError"

text \<open>
  The \<open>try\<close> block the three \<open>_refresh_from_api\<close> have in common: return at once on an
  exception or on a status other than 200, otherwise go on with the decoded body.
\<close>

definition fetch :: "(json \<Rightarrow> 's \<Rightarrow> exn + 's) \<Rightarrow> http_result \<Rightarrow> 's \<Rightarrow> exn + 's" where
  "fetch update r s =
     (case r of
        RequestError \<Rightarrow> Inr s
      | HttpResponse status body \<Rightarrow>
          if status \<noteq> 200 then Inr s
          else (case body of None \<Rightarrow> Inr s | Some data \<Rightarrow> update data s))"

definition ocupado_refresh_from_api ::
    "http_result \<Rightarrow> ocupado_binary_sensor \<Rightarrow> exn + ocupado_binary_sensor" where
  "ocupado_refresh_from_api = fetch ocupado_update"

definition hoy_refresh_from_api :: "http_result \<Rightarrow> reserva_entity \<Rightarrow> exn + reserva_entity" where
  "hoy_refresh_from_api = fetch hoy_update"

definition base_refresh_from_api :: "http_result \<Rightarrow> reserva_base \<Rightarrow> exn + reserva_base" where
  "base_refresh_from_api = fetch base_update"

text \<open>The GET did not give a decoded body with status 200.\<close>

definition failed :: "http_result \<Rightarrow> bool" where
  "failed r =
     (case r of
        RequestError \<Rightarrow> True
      | HttpResponse status body \<Rightarrow> status \<noteq> 200 \<or> body = None)"

text \<open>A body without reservation that still names a user.\<close>

definition free_with_name :: "(str \<times> json) list" where
  "free_with_name =
     [(lit ''has_reservation'', JBool False), (lit ''user_name'', JStr (lit ''Ana''))]"

text \<open>A body with a reservation and neither name nor date.\<close>

definition reserved_unnamed :: "(str \<times> json) list" where
  "reserved_unnamed = [(lit ''has_reservation'', JBool True), (lit ''user_name'', JNull)]"

section \<open>The backoff of the listener\<close>

lemma write_log_backoff [simp]: "backoff (write_log r st) = backoff st"
  by (simp add: write_log_def)

lemma sleep_and_double_le:
  "backoff st \<le> 300 \<Longrightarrow> backoff (snd (sleep_and_double a st)) \<le> 300"
  by (simp add: sleep_and_double_def Let_def)

lemma iteration_le:
  "backoff st \<le> 300 \<Longrightarrow> backoff (snd (iteration a st)) \<le> 300"
  by (auto simp: iteration_def Let_def sleep_and_double_def
           split: connection.splits stream_end.splits prod.splits)

lemma run_le:
  "backoff st \<le> 300 \<Longrightarrow> backoff (snd (run attempts st)) \<le> 300"
proof (induction attempts arbitrary: st)
  case Nil
  then show ?case by simp
next
  case (Cons a rest)
  obtain c st' where it: "iteration a st = (c, st')" by (cases "iteration a st")
  have le: "backoff st' \<le> 300"
    using iteration_le [OF Cons.prems, of a] it by simp
  show ?case
    using Cons.IH [OF le] le it by (cases c) simp_all
qed

text \<open>
  C8. Whatever the attempts are (failures, successes, cancellations, in any order and
  number), the backoff the listener holds after them is at most 300. The attempts are
  arbitrary, so this covers the value after every pass of the loop.
\<close>

theorem C8_backoff_never_exceeds_ceiling:
  "backoff (snd (listen_sse s attempts)) \<le> 300"
  unfolding listen_sse_def by (rule run_le) simp

lemma read_content_breaks: "fst (read_content content buffer s) = breaks content"
  by (induction content arbitrary: buffer s)
     (auto simp: breaks_def split: option.splits prod.splits)

lemma iteration_failure:
  assumes "fails_to_stream a"
  shows "\<exists>st'. iteration a st = (Continue, st') \<and> backoff st' = min (backoff st * 2) 300"
  using assms
  by (auto simp: fails_to_stream_def iteration_def Let_def sleep_and_double_def
           split: connection.splits)

lemma iteration_streams_to_end:
  assumes "streams_to_end a"
  shows "\<exists>st'. iteration a st = (Continue, st') \<and> backoff st' = 5"
proof -
  from assms obtain content ending where
    r: "running_at_test a" and c: "connection a = Response 200 content ending"
    and e: "breaks content \<or> ending = EndOfStream"
    by (auto simp: streams_to_end_def split: connection.splits)
  let ?s = "self ((write_log (ResponseStatus 200) (write_log Connecting st))\<lparr>backoff := 5\<rparr>)"
  obtain b buf s' where rc: "read_content content [] ?s = (b, buf, s')"
    by (cases "read_content content [] ?s") auto
  have "b = breaks content" using read_content_breaks [of content "[]" ?s] rc by simp
  with e have "b \<or> ending = EndOfStream" by simp
  then show ?thesis
    using r c rc by (auto simp: iteration_def Let_def)
qed

lemma iteration_streams_to_error:
  assumes "streams_to_error a"
  shows "\<exists>st'. iteration a st = (Continue, st') \<and> backoff st' = 10"
proof -
  from assms obtain content where
    r: "running_at_test a" and n: "\<not> sleep_cancelled a"
    and c: "connection a = Response 200 content ReadError"
    and e: "\<not> breaks content"
    by (auto simp: streams_to_error_def split: connection.splits)
  let ?s = "self ((write_log (ResponseStatus 200) (write_log Connecting st))\<lparr>backoff := 5\<rparr>)"
  obtain b buf s' where rc: "read_content content [] ?s = (b, buf, s')"
    by (cases "read_content content [] ?s") auto
  have "b = breaks content" using read_content_breaks [of content "[]" ?s] rc by simp
  with e have "\<not> b" by simp
  then show ?thesis
    using r n c rc by (auto simp: iteration_def Let_def sleep_and_double_def)
qed

lemma le_times_power2:
  fixes b c :: int
  assumes "c \<le> b" and "0 \<le> c"
  shows "c \<le> b * 2 ^ n"
proof -
  have "c * 1 \<le> b * 2 ^ n"
    using assms by (intro mult_mono) simp_all
  then show ?thesis by simp
qed

lemma min_double_power:
  fixes b :: int
  shows "min (min (b * 2) 300 * 2 ^ n) 300 = min (b * 2 ^ Suc n) 300"
proof (cases "b * 2 \<le> 300")
  case True
  then have "min (b * 2) 300 = b * 2" by simp
  then show ?thesis by (simp add: mult.assoc)
next
  case False
  then have l: "min (b * 2) 300 = 300" by simp
  have "(300::int) \<le> 300 * 2 ^ n" by (rule le_times_power2) simp_all
  then have m: "min ((300::int) * 2 ^ n) 300 = 300" by (rule min_absorb2)
  have "300 \<le> (b * 2) * 2 ^ n" using False by (intro le_times_power2) simp_all
  then have "300 \<le> b * 2 ^ Suc n" by (simp add: mult.assoc)
  then have r: "min (b * 2 ^ Suc n) 300 = 300" by (rule min_absorb2)
  show ?thesis unfolding l m r ..
qed

lemma run_failures:
  "list_all fails_to_stream fs \<Longrightarrow> backoff st \<le> 300 \<Longrightarrow>
     \<exists>st'. run fs st = (Continue, st') \<and> backoff st' = min (backoff st * 2 ^ length fs) 300"
proof (induction fs arbitrary: st)
  case Nil
  then show ?case by simp
next
  case (Cons a fs)
  then have a: "fails_to_stream a" and fs: "list_all fails_to_stream fs" by simp_all
  from iteration_failure [OF a, of st] obtain st1 where
    it: "iteration a st = (Continue, st1)" and b1: "backoff st1 = min (backoff st * 2) 300"
    by blast
  have le: "backoff st1 \<le> 300" using b1 by simp
  from Cons.IH [OF fs le] obtain st2 where
    r: "run fs st1 = (Continue, st2)"
    and b2: "backoff st2 = min (backoff st1 * 2 ^ length fs) 300"
    by blast
  have "backoff st2 = min (backoff st * 2 ^ Suc (length fs)) 300"
    unfolding b2 b1 by (rule min_double_power)
  then show ?case using it r by simp
qed

text \<open>
  C1, as stated, fails: the loop is entered with a backoff of 10, not 5, so after one
  failed attempt (a 500 answer) the backoff is 20, where the claim's formula gives 10.
\<close>

theorem C1_backoff_after_first_failure_counterexample:
  "fails_to_stream attempt_500 \<and>
   backoff (snd (listen_sse ApiPingSensor [attempt_500])) = 20 \<and>
   backoff (snd (listen_sse ApiPingSensor [attempt_500]))
     \<noteq> min (5 * 2 ^ length [attempt_500]) 300"
  by (simp add: attempt_500_def fails_to_stream_def listen_sse_def iteration_def
        sleep_and_double_def write_log_def emit_def Let_def ApiPingSensor_def)

text \<open>
  C1, amended. After \<open>N\<close> consecutive attempts that fail before a body is read (the
  request raises or the status is not 200), counted from the start of the loop, the
  backoff is \<open>min (10 * 2 ^ N) 300\<close>. An attempt that gets status 200 and whose body ends
  without an exception leaves the backoff at 5, and \<open>N\<close> such failures after it give
  \<open>min (5 * 2 ^ N) 300\<close>; when the body of the 200 answer raises instead, that read
  error is itself one doubling from 5.
\<close>

theorem C1_backoff_formula:
  assumes "list_all fails_to_stream fs"
  shows "backoff (snd (listen_sse s fs)) = min (10 * 2 ^ length fs) 300
       \<and> (streams_to_end ok \<longrightarrow>
            backoff (snd (run [ok] st)) = 5
          \<and> backoff (snd (run (ok # fs) st)) = min (5 * 2 ^ length fs) 300)
       \<and> (streams_to_error ok \<longrightarrow>
            backoff (snd (run (ok # fs) st)) = min (5 * 2 ^ Suc (length fs)) 300)"
proof (intro conjI impI)
  show "backoff (snd (listen_sse s fs)) = min (10 * 2 ^ length fs) 300"
    using run_failures [OF assms, of "\<lparr>self = s, backoff = 10\<rparr>"]
    by (auto simp: listen_sse_def)
next
  assume ok: "streams_to_end ok"
  from iteration_streams_to_end [OF ok, of st] obtain st1 where
    it: "iteration ok st = (Continue, st1)" and b: "backoff st1 = 5" by blast
  show "backoff (snd (run [ok] st)) = 5" using it b by simp
  show "backoff (snd (run (ok # fs) st)) = min (5 * 2 ^ length fs) 300"
    using run_failures [OF assms, of st1] it b by auto
next
  assume ok: "streams_to_error ok"
  from iteration_streams_to_error [OF ok, of st] obtain st1 where
    it: "iteration ok st = (Continue, st1)" and b: "backoff st1 = 10" by blast
  show "backoff (snd (run (ok # fs) st)) = min (5 * 2 ^ Suc (length fs)) 300"
    using run_failures [OF assms, of st1] it b by auto
qed

theorem C1_backoff_formula_witness:
  "list_all fails_to_stream [attempt_500, attempt_500]
   \<and> streams_to_end attempt_200_end
   \<and> streams_to_error attempt_200_error
   \<and> backoff (snd (listen_sse ApiPingSensor [attempt_500, attempt_500])) = 40
   \<and> backoff (snd (run [attempt_200_end] \<lparr>self = ApiPingSensor, backoff = 10\<rparr>)) = 5
   \<and> backoff (snd (run [attempt_200_end, attempt_500, attempt_500]
                     \<lparr>self = ApiPingSensor, backoff = 10\<rparr>)) = 20
   \<and> backoff (snd (run [attempt_200_error, attempt_500, attempt_500]
                     \<lparr>self = ApiPingSensor, backoff = 10\<rparr>)) = 40"
proof -
  have f: "list_all fails_to_stream [attempt_500, attempt_500]"
    by (simp add: fails_to_stream_def attempt_500_def)
  have e: "streams_to_end attempt_200_end"
    by (simp add: streams_to_end_def attempt_200_end_def)
  have r: "streams_to_error attempt_200_error"
    by (simp add: streams_to_error_def attempt_200_error_def breaks_def)
  show ?thesis
    using f e r
      C1_backoff_formula [OF f, of ApiPingSensor attempt_200_end
        "\<lparr>self = ApiPingSensor, backoff = 10\<rparr>"]
      C1_backoff_formula [OF f, of ApiPingSensor attempt_200_error
        "\<lparr>self = ApiPingSensor, backoff = 10\<rparr>"]
    by simp
qed

section \<open>The frame parser\<close>

lemma published_append: "published (xs @ ys) = published xs @ published ys"
  by (induction xs rule: published.induct) simp_all

lemma published_publish: "published (effects (publish v s)) = published (effects s) @ [v]"
  by (simp add: publish_def emit_def published_append)

lemma emit_emit: "emit es2 (emit es1 s) = emit (es1 @ es2) s"
  by (simp add: emit_def)

lemma comment_not_data:
  "startswith line (lit '':'') \<Longrightarrow> \<not> startswith line (lit ''data:'')"
  by (cases line) (auto simp: startswith_def lit_def)

lemma feed_blank:
  "feed [] buffer s = ([], if buffer \<noteq> [] then publish buffer s else s)"
  by (simp add: feed_def)

lemma feed_nonblank:
  "line \<noteq> [] \<Longrightarrow>
     feed line buffer s =
       (if startswith line (lit ''data:'') then buffer @ lstrip (drop 5 line) else buffer, s)"
  by (auto simp: feed_def dest: comment_not_data)

lemma read_content_append:
  "read_content (xs @ ys) buffer s =
     (case read_content xs buffer s of
        (True, buffer', s') \<Rightarrow> (True, buffer', s')
      | (False, buffer', s') \<Rightarrow> read_content ys buffer' s')"
  by (induction xs arbitrary: buffer s) (auto split: option.splits prod.splits)

lemma read_no_data:
  "list_all (\<lambda>r. \<not> startswith (rstrip_nl r) (lit ''data:'')) rs \<Longrightarrow>
     read_content (map line_chunk rs) [] s = (False, [], s)"
proof (induction rs)
  case Nil
  then show ?case by simp
next
  case (Cons r rs)
  then show ?case
    by (cases "rstrip_nl r = []") (simp_all add: line_chunk_def feed_blank feed_nonblank)
qed

lemma read_no_blank:
  "list_all (\<lambda>r. rstrip_nl r \<noteq> []) rs \<Longrightarrow>
     read_content (map line_chunk rs) buffer s = (False, buffer @ data_payloads rs, s)"
proof (induction rs arbitrary: buffer)
  case Nil
  then show ?case by (simp add: data_payloads_def)
next
  case (Cons r rs)
  then show ?case by (simp add: line_chunk_def feed_nonblank data_payloads_def)
qed

lemma read_blank:
  "rstrip_nl r = [] \<Longrightarrow>
     read_content [line_chunk r] buffer s =
       (False, [], if buffer \<noteq> [] then publish buffer s else s)"
  by (simp add: line_chunk_def feed_blank)

lemma read_blanks_empty:
  "list_all (\<lambda>r. rstrip_nl r = []) rs \<Longrightarrow>
     read_content (map line_chunk rs) [] s = (False, [], s)"
  by (induction rs) (simp_all add: line_chunk_def feed_blank)

lemma read_blanks:
  assumes "list_all (\<lambda>r. rstrip_nl r = []) rs"
  shows "read_content (map line_chunk rs) buffer s =
           (False, if rs = [] then buffer else [],
            if rs \<noteq> [] \<and> buffer \<noteq> [] then publish buffer s else s)"
proof (cases rs)
  case Nil
  then show ?thesis by simp
next
  case (Cons r rest)
  with assms have r: "rstrip_nl r = []" and rest: "list_all (\<lambda>r. rstrip_nl r = []) rest"
    by simp_all
  show ?thesis
    using r read_blanks_empty [OF rest] Cons by (simp add: line_chunk_def feed_blank)
qed

text \<open>
  C2, as stated, fails: a \<open>data:\<close> line with an empty payload followed by a blank line
  is one block ended by a blank line, yet nothing is published, where the claim asks
  for one event (the empty concatenation).
\<close>

theorem C2_empty_payload_counterexample:
  "list_all (\<lambda>r. rstrip_nl r \<noteq> []) [lit ''data:\<newline>'']
   \<and> startswith (rstrip_nl (lit ''data:\<newline>'')) (lit ''data:'')
   \<and> rstrip_nl (lit ''\<newline>'') = []
   \<and> published (effects (snd (snd (read_content
         (map line_chunk ([] @ [lit ''data:\<newline>''] @ [lit ''\<newline>''] @ [])) []
         ApiPingSensor)))) = []
   \<and> published (effects (snd (snd (read_content
         (map line_chunk ([] @ [lit ''data:\<newline>''] @ [lit ''\<newline>''] @ [])) []
         ApiPingSensor)))) \<noteq> [data_payloads [lit ''data:\<newline>'']]"
  by (simp add: lit_def rstrip_nl_def startswith_def line_chunk_def feed_def lstrip_def
        ApiPingSensor_def)

text \<open>
  C2, amended. Take raw lines \<open>pre @ block @ [blank] @ post\<close>, read from the empty
  buffer while the sensor is running: \<open>pre\<close> and \<open>post\<close> hold no \<open>data:\<close> line, \<open>block\<close>
  holds no blank line, \<open>blank\<close> is blank. When the concatenation, with no separator, of
  the payloads of the \<open>data:\<close> lines of \<open>block\<close> (prefix and all leading whitespace
  removed) is not empty, the sensor publishes exactly that one event: one log record,
  one state write, one dispatcher signal, and nothing else changes. When it is empty,
  nothing is published and the sensor is unchanged.
\<close>

theorem C2_one_block_one_event:
  assumes "list_all (\<lambda>r. \<not> startswith (rstrip_nl r) (lit ''data:'')) (pre @ post)"
    and "list_all (\<lambda>r. rstrip_nl r \<noteq> []) block"
    and "rstrip_nl blank = []"
  shows "read_content (map line_chunk (pre @ block @ [blank] @ post)) [] s =
           (False, [],
            if data_payloads block \<noteq> [] then publish (data_payloads block) s else s)"
proof -
  from assms(1) have pre: "list_all (\<lambda>r. \<not> startswith (rstrip_nl r) (lit ''data:'')) pre"
    and post: "list_all (\<lambda>r. \<not> startswith (rstrip_nl r) (lit ''data:'')) post"
    by simp_all
  let ?s = "if data_payloads block \<noteq> [] then publish (data_payloads block) s else s"
  have 1: "read_content (map line_chunk pre) [] s = (False, [], s)"
    by (rule read_no_data [OF pre])
  have 2: "read_content (map line_chunk block) [] s = (False, data_payloads block, s)"
    using read_no_blank [OF assms(2), of "[]" s] by simp
  have 3: "read_content [line_chunk blank] (data_payloads block) s = (False, [], ?s)"
    by (rule read_blank [OF assms(3)])
  have 4: "read_content (map line_chunk post) [] ?s = (False, [], ?s)"
    by (rule read_no_data [OF post])
  have "read_content (map line_chunk pre @ map line_chunk block @ [line_chunk blank]
                       @ map line_chunk post) [] s = (False, [], ?s)"
    by (simp only: read_content_append 1 2 3 4 prod.case bool.case)
  then show ?thesis by simp
qed

theorem C2_one_block_one_event_witness:
  "list_all (\<lambda>r. \<not> startswith (rstrip_nl r) (lit ''data:''))
     ([lit '': ping\<newline>'', lit ''\<newline>''] @ [lit ''id: 1\<newline>''])
   \<and> list_all (\<lambda>r. rstrip_nl r \<noteq> [])
        [lit ''data: a\<newline>'', lit ''event: x\<newline>'', lit ''data:b\<newline>'']
   \<and> rstrip_nl (lit ''\<newline>'') = []
   \<and> read_content (map line_chunk
         ([lit '': ping\<newline>'', lit ''\<newline>'']
          @ [lit ''data: a\<newline>'', lit ''event: x\<newline>'', lit ''data:b\<newline>'']
          @ [lit ''\<newline>''] @ [lit ''id: 1\<newline>''])) [] ApiPingSensor
       = (False, [], publish (lit ''ab'') ApiPingSensor)"
proof -
  have h1: "list_all (\<lambda>r. \<not> startswith (rstrip_nl r) (lit ''data:''))
     ([lit '': ping\<newline>'', lit ''\<newline>''] @ [lit ''id: 1\<newline>''])"
    by (simp add: lit_def rstrip_nl_def startswith_def)
  have h2: "list_all (\<lambda>r. rstrip_nl r \<noteq> [])
        [lit ''data: a\<newline>'', lit ''event: x\<newline>'', lit ''data:b\<newline>'']"
    by (simp add: lit_def rstrip_nl_def)
  have h3: "rstrip_nl (lit ''\<newline>'') = []"
    by (simp add: lit_def rstrip_nl_def)
  have p: "data_payloads
        [lit ''data: a\<newline>'', lit ''event: x\<newline>'', lit ''data:b\<newline>''] = lit ''ab''"
    by (simp add: data_payloads_def lit_def rstrip_nl_def startswith_def lstrip_def isspace_def)
  have ne: "lit ''ab'' \<noteq> []" by (simp add: lit_def)
  show ?thesis
    using h1 h2 h3 C2_one_block_one_event [OF h1 h2 h3, of ApiPingSensor]
    unfolding p using ne by simp
qed

text \<open>
  C3, as stated, fails: of the two spaces after the prefix in \<open>data:  x\<close> the source
  removes both and appends \<open>x\<close>, where the claim keeps the second one.
\<close>

theorem C3_two_spaces_counterexample:
  "startswith (lit ''data:  x'') (lit ''data:'')
   \<and> fst (feed (lit ''data:  x'') [] ApiPingSensor) = lit ''x''
   \<and> spec_data_payload (lit ''data:  x'') = lit '' x''
   \<and> fst (feed (lit ''data:  x'') [] ApiPingSensor) \<noteq> [] @ spec_data_payload (lit ''data:  x'')"
  by (simp add: lit_def startswith_def feed_def lstrip_def isspace_def spec_data_payload_def)

text \<open>
  C3, amended. For every line that starts with \<open>data:\<close>, the text appended to the
  buffer is the line with the prefix removed and all leading whitespace removed: what
  follows the prefix is a run of whitespace followed by the appended text, and the
  appended text does not begin with whitespace. Nothing else changes. The appended text
  is the one the claim describes whenever that one does not begin with whitespace.
\<close>

theorem C3_data_line_appends_lstripped:
  assumes "startswith line (lit ''data:'')"
  shows "feed line buffer s = (buffer @ lstrip (drop 5 line), s)
       \<and> drop 5 line = takeWhile isspace (drop 5 line) @ lstrip (drop 5 line)
       \<and> list_all isspace (takeWhile isspace (drop 5 line))
       \<and> (case lstrip (drop 5 line) of [] \<Rightarrow> True | c # rest \<Rightarrow> \<not> isspace c)
       \<and> (case spec_data_payload line of
            [] \<Rightarrow> lstrip (drop 5 line) = []
          | c # rest \<Rightarrow> isspace c \<or> lstrip (drop 5 line) = c # rest)"
proof (intro conjI)
  from assms have "line \<noteq> []" by (auto simp: startswith_def lit_def)
  then show "feed line buffer s = (buffer @ lstrip (drop 5 line), s)"
    using assms by (simp add: feed_nonblank)
  show "drop 5 line = takeWhile isspace (drop 5 line) @ lstrip (drop 5 line)"
    by (simp add: lstrip_def)
  show "list_all isspace (takeWhile isspace (drop 5 line))"
    by (simp add: list_all_iff) (meson set_takeWhileD)
  show "case lstrip (drop 5 line) of [] \<Rightarrow> True | c # rest \<Rightarrow> \<not> isspace c"
    unfolding lstrip_def
  proof (cases "dropWhile isspace (drop 5 line)")
    case Nil
    show "case dropWhile isspace (drop 5 line) of [] \<Rightarrow> True | c # rest \<Rightarrow> \<not> isspace c"
      unfolding Nil by simp
  next
    case (Cons c rest)
    have "\<not> isspace c"
      using hd_dropWhile [of isspace "drop 5 line"] unfolding Cons by simp
    then show "case dropWhile isspace (drop 5 line) of [] \<Rightarrow> True | c # rest \<Rightarrow> \<not> isspace c"
      unfolding Cons by simp
  qed
  show "case spec_data_payload line of
            [] \<Rightarrow> lstrip (drop 5 line) = []
          | c # rest \<Rightarrow> isspace c \<or> lstrip (drop 5 line) = c # rest"
  proof (cases "drop 5 line")
    case Nil
    then show ?thesis by (simp add: spec_data_payload_def lstrip_def)
  next
    case (Cons c rest)
    have sp: "isspace 32" by (simp add: isspace_def)
    show ?thesis
    proof (cases "c = 32")
      case True
      then show ?thesis using Cons sp
        by (cases rest) (simp_all add: spec_data_payload_def lstrip_def)
    next
      case False
      then show ?thesis using Cons by (simp add: spec_data_payload_def lstrip_def)
    qed
  qed
qed

theorem C3_data_line_appends_lstripped_witness:
  "startswith (lit ''data: hello'') (lit ''data:'')
   \<and> feed (lit ''data: hello'') (lit ''x'') ApiPingSensor = (lit ''xhello'', ApiPingSensor)"
proof -
  have h: "startswith (lit ''data: hello'') (lit ''data:'')"
    by (simp add: lit_def startswith_def)
  have l: "lit ''x'' @ lstrip (drop 5 (lit ''data: hello'')) = lit ''xhello''"
    by (simp add: lit_def lstrip_def isspace_def)
  show ?thesis
    using h C3_data_line_appends_lstripped [OF h, of "lit ''x''" ApiPingSensor]
    unfolding l by simp
qed

section \<open>Blank lines and empty events\<close>

lemma no_empty_event_emit [simp]:
  "no_empty_event (emit [Log r] s) = no_empty_event s"
  "no_empty_event (emit [Sleep d] s) = no_empty_event s"
  by (simp_all add: no_empty_event_def emit_def published_append)

lemma feed_no_empty_event:
  "no_empty_event s \<Longrightarrow> no_empty_event (snd (feed line buffer s))"
  by (simp add: feed_def no_empty_event_def published_publish)

lemma read_content_no_empty_event:
  "no_empty_event s \<Longrightarrow> no_empty_event (snd (snd (read_content cs buffer s)))"
proof (induction cs arbitrary: buffer s)
  case Nil
  then show ?case by simp
next
  case (Cons c cs)
  show ?case
  proof (cases "decoded c")
    case None
    then show ?thesis using Cons by simp
  next
    case (Some t)
    obtain b1 s1 where f: "feed (rstrip_nl t) buffer s = (b1, s1)"
      by (cases "feed (rstrip_nl t) buffer s")
    then have "no_empty_event s1"
      using feed_no_empty_event [OF Cons.prems, of "rstrip_nl t" buffer] by simp
    then show ?thesis using Some f Cons.prems Cons.IH [of s1 b1] by simp
  qed
qed

lemma iteration_no_empty_event:
  assumes "no_empty_event (self st)"
  shows "no_empty_event (self (snd (iteration a st)))"
proof (cases "connection a")
  case ConnectError
  then show ?thesis using assms
    by (simp add: iteration_def Let_def write_log_def sleep_and_double_def)
next
  case ConnectCancelled
  then show ?thesis using assms by (simp add: iteration_def Let_def write_log_def)
next
  case (Response status content ending)
  show ?thesis
  proof (cases "status = 200")
    case False
    then show ?thesis using assms Response
      by (simp add: iteration_def Let_def write_log_def sleep_and_double_def)
  next
    case True
    let ?s = "emit [Log (ResponseStatus 200)] (emit [Log Connecting] (self st))"
    have s: "no_empty_event ?s" using assms by simp
    obtain broke buffer s' where rc: "read_content content [] ?s = (broke, buffer, s')"
      by (cases "read_content content [] ?s") auto
    have "no_empty_event s'"
      using read_content_no_empty_event [OF s, of content "[]"] rc by simp
    then show ?thesis using assms Response True rc
      by (cases ending) (simp_all add: iteration_def Let_def write_log_def sleep_and_double_def)
  qed
qed

lemma run_no_empty_event:
  "no_empty_event (self st) \<Longrightarrow> no_empty_event (self (snd (run attempts st)))"
proof (induction attempts arbitrary: st)
  case Nil
  then show ?case by simp
next
  case (Cons a rest)
  obtain c st' where it: "iteration a st = (c, st')" by (cases "iteration a st")
  have ne: "no_empty_event (self st')"
    using iteration_no_empty_event [OF Cons.prems, of a] it by simp
  show ?case using Cons.IH [OF ne] ne it by (cases c) simp_all
qed

text \<open>
  C7. Blank lines read with an empty buffer publish nothing and leave the sensor as it
  was; a run of blank lines read with any buffer publishes at most one event; and over
  any attempts at all, no state the listener writes is the empty string.
\<close>

theorem C7_blank_lines:
  assumes "list_all (\<lambda>r. rstrip_nl r = []) blanks"
  shows "read_content (map line_chunk blanks) [] s = (False, [], s)
       \<and> length (published (effects (snd (snd (read_content (map line_chunk blanks) buffer s)))))
           \<le> Suc (length (published (effects s)))
       \<and> [] \<notin> set (published (effects (self (snd (listen_sse ApiPingSensor attempts)))))"
proof (intro conjI)
  show "read_content (map line_chunk blanks) [] s = (False, [], s)"
    by (rule read_blanks_empty [OF assms])
  show "length (published (effects (snd (snd (read_content (map line_chunk blanks) buffer s)))))
           \<le> Suc (length (published (effects s)))"
    by (simp add: read_blanks [OF assms] published_publish)
  have "no_empty_event ApiPingSensor" by (simp add: no_empty_event_def ApiPingSensor_def)
  then have "no_empty_event (self (snd (listen_sse ApiPingSensor attempts)))"
    unfolding listen_sse_def by (intro run_no_empty_event) simp
  then show "[] \<notin> set (published (effects (self (snd (listen_sse ApiPingSensor attempts)))))"
    by (simp add: no_empty_event_def)
qed

theorem C7_blank_lines_witness:
  "list_all (\<lambda>r. rstrip_nl r = []) [lit ''\<newline>'', lit ''\<newline>\<newline>'', []]
   \<and> read_content (map line_chunk [lit ''\<newline>'', lit ''\<newline>\<newline>'', []]) [] ApiPingSensor
       = (False, [], ApiPingSensor)
   \<and> length (published (effects (snd (snd (read_content
         (map line_chunk [lit ''\<newline>'', lit ''\<newline>\<newline>'', []]) (lit ''x'') ApiPingSensor)))))
       \<le> Suc (length (published (effects ApiPingSensor)))
   \<and> [] \<notin> set (published (effects (self (snd (listen_sse ApiPingSensor [attempt_200_blank])))))"
proof -
  have h: "list_all (\<lambda>r. rstrip_nl r = []) [lit ''\<newline>'', lit ''\<newline>\<newline>'', []]"
    by (simp add: lit_def rstrip_nl_def)
  show ?thesis
    using h C7_blank_lines [OF h, of ApiPingSensor "lit ''x''" "[attempt_200_blank]"] by simp
qed

section \<open>Status 401 and the retry path\<close>

text \<open>
  C6. An attempt answered with status 401, entered while the sensor is running and
  whose sleep is not cancelled, ends with the loop going on: it has logged the
  connection, the status and the failed authentication, slept for the jittered delay of
  the current backoff, and stored the doubled backoff capped at 300; the loop then makes
  the next attempt from that state. Any other status that is not 200 does the same, less
  the authentication record.
\<close>

theorem C6_status_401_retries:
  assumes "running_at_test a" and "connection a = Response 401 content ending"
    and "\<not> sleep_cancelled a"
  shows "iteration a st =
           (Continue,
            st\<lparr>self := emit [Log Connecting, Log (ResponseStatus 401), Log AuthFailed,
                             Sleep (jitter_delay (backoff st) (loop_time a))] (self st),
               backoff := min (backoff st * 2) 300\<rparr>)
       \<and> run (a # rest) st =
           run rest
            (st\<lparr>self := emit [Log Connecting, Log (ResponseStatus 401), Log AuthFailed,
                             Sleep (jitter_delay (backoff st) (loop_time a))] (self st),
               backoff := min (backoff st * 2) 300\<rparr>)
       \<and> (status \<noteq> 200 \<and> status \<noteq> 401 \<longrightarrow>
            iteration (a\<lparr>connection := Response status content ending\<rparr>) st =
              (Continue,
               st\<lparr>self := emit [Log Connecting, Log (ResponseStatus status),
                                Sleep (jitter_delay (backoff st) (loop_time a))] (self st),
                  backoff := min (backoff st * 2) 300\<rparr>))"
  using assms
  by (simp add: iteration_def Let_def sleep_and_double_def write_log_def emit_emit)

theorem C6_status_401_retries_witness:
  "running_at_test attempt_401
   \<and> connection attempt_401 = Response 401 [] EndOfStream
   \<and> \<not> sleep_cancelled attempt_401
   \<and> iteration attempt_401 \<lparr>self = ApiPingSensor, backoff = 10\<rparr> =
       (Continue,
        \<lparr>self = \<lparr>attr_native_value = None,
                 effects = [Log Connecting, Log (ResponseStatus 401), Log AuthFailed, Sleep 8]\<rparr>,
         backoff = 20\<rparr>)
   \<and> run [attempt_401, attempt_401] \<lparr>self = ApiPingSensor, backoff = 10\<rparr> =
       run [attempt_401]
        \<lparr>self = \<lparr>attr_native_value = None,
                 effects = [Log Connecting, Log (ResponseStatus 401), Log AuthFailed, Sleep 8]\<rparr>,
         backoff = 20\<rparr>
   \<and> iteration (attempt_401\<lparr>connection := Response 500 [] EndOfStream\<rparr>)
        \<lparr>self = ApiPingSensor, backoff = 10\<rparr> =
       (Continue,
        \<lparr>self = \<lparr>attr_native_value = None,
                 effects = [Log Connecting, Log (ResponseStatus 500), Sleep 8]\<rparr>,
         backoff = 20\<rparr>)"
proof -
  have h1: "running_at_test attempt_401" by (simp add: attempt_401_def)
  have h2: "connection attempt_401 = Response 401 [] EndOfStream" by (simp add: attempt_401_def)
  have h3: "\<not> sleep_cancelled attempt_401" by (simp add: attempt_401_def)
  have t: "loop_time attempt_401 = 0" by (simp add: attempt_401_def)
  show ?thesis
    using h1 h2 h3
      C6_status_401_retries [OF h1 h2 h3, of "\<lparr>self = ApiPingSensor, backoff = 10\<rparr>"
        "[attempt_401]" 500]
    by (simp add: t jitter_delay_def emit_def ApiPingSensor_def)
qed

section \<open>The buffer does not outlive its connection\<close>

lemma feed_nonblank_sensor: "line \<noteq> [] \<Longrightarrow> snd (feed line buffer s) = s"
  by (simp add: feed_def)

lemma read_content_unterminated:
  "unterminated tail \<Longrightarrow> \<exists>buffer'. read_content tail buffer s = (False, buffer', s)"
proof (induction tail arbitrary: buffer)
  case Nil
  then show ?case by simp
next
  case (Cons c tail)
  then have r: "running c" and t: "unterminated tail"
    and d: "case decoded c of None \<Rightarrow> True | Some text \<Rightarrow> rstrip_nl text \<noteq> []"
    by (simp_all add: unterminated_def)
  show ?case
  proof (cases "decoded c")
    case None
    then show ?thesis using r Cons.IH [OF t] by simp
  next
    case (Some t')
    with d have nb: "rstrip_nl t' \<noteq> []" by simp
    obtain b1 s1 where f: "feed (rstrip_nl t') buffer s = (b1, s1)"
      by (cases "feed (rstrip_nl t') buffer s")
    with feed_nonblank_sensor [OF nb, of buffer s] have "s1 = s" by simp
    then show ?thesis using r Some f Cons.IH [OF t, of b1] by simp
  qed
qed

lemma iteration_drop_tail:
  assumes "unterminated tail"
  shows "iteration (a\<lparr>connection := Response 200 (content @ tail) ending\<rparr>) st
       = iteration (a\<lparr>connection := Response 200 content ending\<rparr>) st"
proof -
  let ?s = "self ((write_log (ResponseStatus 200) (write_log Connecting st))\<lparr>backoff := 5\<rparr>)"
  obtain broke buffer s' where rc: "read_content content [] ?s = (broke, buffer, s')"
    by (cases "read_content content [] ?s") auto
  show ?thesis
  proof (cases broke)
    case True
    then have "read_content (content @ tail) [] ?s = (True, buffer, s')"
      using rc by (simp add: read_content_append)
    then show ?thesis using rc True by (simp add: iteration_def Let_def sleep_and_double_def)
  next
    case False
    from read_content_unterminated [OF assms, of buffer s'] obtain b2 where
      "read_content tail buffer s' = (False, b2, s')" by blast
    then have "read_content (content @ tail) [] ?s = (False, b2, s')"
      using rc False by (simp add: read_content_append)
    then show ?thesis using rc False
      by (cases ending) (simp_all add: iteration_def Let_def sleep_and_double_def)
  qed
qed

lemma run_same_iteration:
  assumes "\<And>st. iteration a1 st = iteration a2 st"
  shows "run (pre @ a1 # rest) st = run (pre @ a2 # rest) st"
proof (induction pre arbitrary: st)
  case Nil
  show ?case by (simp add: assms)
next
  case (Cons p pre)
  show ?case by (simp add: Cons.IH split: prod.splits control.splits)
qed

text \<open>
  C9. Let the body of a connection end (by the end of the stream, a read error or a
  cancellation) after items that hold no blank line, so that what they put in the buffer
  is never terminated. Then the whole run of the listener, whatever came before and
  whatever comes after, is the one it would be had those items never arrived: the same
  control, the same state, log, writes and signals, the same backoff. So the partial
  buffer is neither published nor carried into a later connection.
\<close>

theorem C9_partial_buffer_dropped:
  assumes "unterminated tail"
  shows "run (pre @ a\<lparr>connection := Response 200 (content @ tail) ending\<rparr> # rest) st
       = run (pre @ a\<lparr>connection := Response 200 content ending\<rparr> # rest) st"
  by (rule run_same_iteration) (rule iteration_drop_tail [OF assms])

theorem C9_partial_buffer_dropped_witness:
  "unterminated [line_chunk (lit ''data: x\<newline>'')]
   \<and> run ([] @ attempt_200_error
               \<lparr>connection := Response 200 ([] @ [line_chunk (lit ''data: x\<newline>'')]) ReadError\<rparr>
             # [attempt_200_blank]) \<lparr>self = ApiPingSensor, backoff = 10\<rparr>
     = run ([] @ attempt_200_error\<lparr>connection := Response 200 [] ReadError\<rparr>
             # [attempt_200_blank]) \<lparr>self = ApiPingSensor, backoff = 10\<rparr>"
proof -
  have h: "unterminated [line_chunk (lit ''data: x\<newline>'')]"
    by (simp add: unterminated_def line_chunk_def lit_def rstrip_nl_def)
  show ?thesis
    using h C9_partial_buffer_dropped [OF h, where pre = "[]" and a = attempt_200_error
                  and content = "[]" and ending = ReadError and rest = "[attempt_200_blank]"
                  and st = "\<lparr>self = ApiPingSensor, backoff = 10\<rparr>"]
    by simp
qed

section \<open>The snapshot fetchers\<close>

lemma lit_eq_iff [simp]: "lit a = lit b \<longleftrightarrow> a = b"
proof -
  have "inj (of_char :: char \<Rightarrow> nat)" by (rule injI) simp
  then show ?thesis by (simp add: lit_def inj_map_eq_map)
qed

lemma fetch_failed: "failed r \<Longrightarrow> fetch update r s = Inr s"
  by (auto simp: failed_def fetch_def split: http_result.splits)

text \<open>
  C4. When the GET raises, answers with a status other than 200, or the body does not
  parse, \<open>_refresh_from_api\<close> of each fetcher (Ocupado, Reserva Hoy, and the base of
  Reserva Anterior and Reserva Proxima) returns with the entity exactly as it was:
  same state, same attributes, no state write.
\<close>

theorem C4_failed_fetch_keeps_state:
  assumes "failed r"
  shows "ocupado_refresh_from_api r oc = Inr oc
       \<and> hoy_refresh_from_api r hoy = Inr hoy
       \<and> base_refresh_from_api r b = Inr b"
  using assms
  by (simp add: ocupado_refresh_from_api_def hoy_refresh_from_api_def base_refresh_from_api_def
        fetch_failed)

theorem C4_failed_fetch_keeps_state_witness:
  "failed (HttpResponse 404 None)
   \<and> failed (HttpResponse 200 None)
   \<and> failed RequestError
   \<and> ocupado_refresh_from_api (HttpResponse 404 None) OcupadoBinarySensor
       = Inr OcupadoBinarySensor
   \<and> hoy_refresh_from_api (HttpResponse 200 None) ReservaHoySensor = Inr ReservaHoySensor
   \<and> base_refresh_from_api RequestError ReservaAnteriorSensor = Inr ReservaAnteriorSensor
   \<and> base_refresh_from_api RequestError ReservaProximaSensor = Inr ReservaProximaSensor"
proof -
  have h1: "failed (HttpResponse 404 None)" by (simp add: failed_def)
  have h2: "failed (HttpResponse 200 None)" by (simp add: failed_def)
  have h3: "failed RequestError" by (simp add: failed_def)
  show ?thesis
    using h1 h2 h3
      C4_failed_fetch_keeps_state [OF h1, of OcupadoBinarySensor ReservaHoySensor
        ReservaAnteriorSensor]
      C4_failed_fetch_keeps_state [OF h2, of OcupadoBinarySensor ReservaHoySensor
        ReservaAnteriorSensor]
      C4_failed_fetch_keeps_state [OF h3, of OcupadoBinarySensor ReservaHoySensor
        ReservaAnteriorSensor]
      C4_failed_fetch_keeps_state [OF h3, of OcupadoBinarySensor ReservaHoySensor
        ReservaProximaSensor]
    by simp
qed

text \<open>
  C5, as stated, fails for Reserva Hoy: on a 200 answer without reservation whose
  \<open>user_name\<close> is \<open>Ana\<close>, the sensor publishes \<open>Libre\<close> with three attributes, none of
  which is named \<open>nombre\<close> or \<open>user_name\<close> and none of which holds the name.
\<close>

theorem C5_reserva_hoy_counterexample:
  "map_of free_with_name (lit ''has_reservation'') = Some (JBool False)
   \<and> dict_get free_with_name (lit ''user_name'') JNull = JStr (lit ''Ana'')
   \<and> hoy_refresh_from_api (HttpResponse 200 (Some (JObj free_with_name))) ReservaHoySensor
       = Inr \<lparr>attrs = [(lit ''cumpleanos'', JBool False), (lit ''festivo'', JBool False),
                        (lit ''foto_perfil_url'', JNull)],
              state_writes = 1, native_value = JStr (lit ''Libre'')\<rparr>
   \<and> map_of [(lit ''cumpleanos'', JBool False), (lit ''festivo'', JBool False),
              (lit ''foto_perfil_url'', JNull)] (lit ''nombre'') = None
   \<and> map_of [(lit ''cumpleanos'', JBool False), (lit ''festivo'', JBool False),
              (lit ''foto_perfil_url'', JNull)] (lit ''user_name'') = None
   \<and> JStr (lit ''Ana'') \<notin> snd ` set [(lit ''cumpleanos'', JBool False),
              (lit ''festivo'', JBool False), (lit ''foto_perfil_url'', JNull)]"
  by (simp add: free_with_name_def hoy_refresh_from_api_def fetch_def dict_get_def py_bool_def
        ReservaHoySensor_def)

text \<open>
  C5, amended. On a 200 answer whose JSON object has \<open>has_reservation\<close> false, every
  fetcher writes its state once and the state is its marker: off for Ocupado, \<open>Libre\<close>
  for Reserva Hoy, \<open>Ninguna\<close> for Reserva Anterior and Reserva Proxima. Ocupado,
  Reserva Anterior and Reserva Proxima publish the raw \<open>user_name\<close> of the payload
  (null when it is null or absent) as the attribute \<open>nombre\<close>; Reserva Hoy publishes
  the attributes \<open>cumpleanos\<close>, \<open>festivo\<close> and \<open>foto_perfil_url\<close> only.
\<close>

theorem C5_no_reservation_snapshot:
  assumes "map_of data (lit ''has_reservation'') = Some (JBool False)"
  shows "(\<exists>oc'. ocupado_refresh_from_api (HttpResponse 200 (Some (JObj data))) oc = Inr oc'
            \<and> is_on oc' = False
            \<and> state_writes oc' = Suc (state_writes oc)
            \<and> map_of (attrs oc') (lit ''nombre'') = Some (dict_get data (lit ''user_name'') JNull))
       \<and> (\<exists>hoy'. hoy_refresh_from_api (HttpResponse 200 (Some (JObj data))) hoy = Inr hoy'
            \<and> native_value hoy' = JStr (lit ''Libre'')
            \<and> state_writes hoy' = Suc (state_writes hoy)
            \<and> map fst (attrs hoy') = [lit ''cumpleanos'', lit ''festivo'', lit ''foto_perfil_url''])
       \<and> (\<exists>b'. base_refresh_from_api (HttpResponse 200 (Some (JObj data))) b = Inr b'
            \<and> native_value b' = JStr (lit ''Ninguna'')
            \<and> state_writes b' = Suc (state_writes b)
            \<and> map_of (attrs b') (lit ''nombre'') = Some (dict_get data (lit ''user_name'') JNull))"
  using assms
  by (simp add: ocupado_refresh_from_api_def hoy_refresh_from_api_def base_refresh_from_api_def
        fetch_def dict_get_def)

theorem C5_no_reservation_snapshot_witness:
  "map_of [(lit ''has_reservation'', JBool False), (lit ''user_name'', JNull)]
      (lit ''has_reservation'') = Some (JBool False)
   \<and> ocupado_refresh_from_api
        (HttpResponse 200 (Some (JObj [(lit ''has_reservation'', JBool False),
                                        (lit ''user_name'', JNull)]))) OcupadoBinarySensor
       = Inr \<lparr>attrs = [(lit ''reserva_hoy'', JBool False), (lit ''nombre'', JNull),
                        (lit ''cumpleanos'', JBool False), (lit ''festivo'', JBool False),
                        (lit ''foto_perfil_url'', JNull)],
              state_writes = 1, is_on = False\<rparr>
   \<and> base_refresh_from_api
        (HttpResponse 200 (Some (JObj [(lit ''has_reservation'', JBool False),
                                        (lit ''user_name'', JNull)]))) ReservaProximaSensor
       = Inr \<lparr>attrs = [(lit ''nombre'', JNull), (lit ''cumpleanos'', JBool False),
                        (lit ''festivo'', JBool False), (lit ''foto_perfil_url'', JNull),
                        (lit ''fecha'', JNull)],
              state_writes = 1, native_value = JStr (lit ''Ninguna''),
              endpoint = lit ''/api/next''\<rparr>"
proof -
  have h: "map_of [(lit ''has_reservation'', JBool False), (lit ''user_name'', JNull)]
      (lit ''has_reservation'') = Some (JBool False)"
    by simp
  show ?thesis
    using h C5_no_reservation_snapshot [OF h, of OcupadoBinarySensor ReservaHoySensor
      ReservaProximaSensor]
    by (simp add: ocupado_refresh_from_api_def base_refresh_from_api_def fetch_def dict_get_def
          py_bool_def OcupadoBinarySensor_def ReservaProximaSensor_def ReservaBase_def)
qed

text \<open>
  C10. For the base of Reserva Anterior and Reserva Proxima, on a 200 answer whose
  JSON object has a truthy \<open>has_reservation\<close> and whose \<open>user_name\<close> and \<open>date\<close> are
  both null or absent, the state written is \<open>Desconocido\<close>, which is neither
  \<open>Ninguna\<close> nor null.
\<close>

theorem C10_reserved_without_name_or_date:
  assumes "truthy (dict_get data (lit ''has_reservation'') JNull)"
    and "dict_get data (lit ''user_name'') JNull = JNull"
    and "dict_get data (lit ''date'') JNull = JNull"
  shows "\<exists>b'. base_refresh_from_api (HttpResponse 200 (Some (JObj data))) b = Inr b'
            \<and> native_value b' = JStr (lit ''Desconocido'')
            \<and> native_value b' \<noteq> JStr (lit ''Ninguna'')
            \<and> native_value b' \<noteq> JNull
            \<and> state_writes b' = Suc (state_writes b)"
  using assms
  by (simp add: base_refresh_from_api_def fetch_def py_or_def)

theorem C10_reserved_without_name_or_date_witness:
  "truthy (dict_get reserved_unnamed (lit ''has_reservation'') JNull)
   \<and> dict_get reserved_unnamed (lit ''user_name'') JNull = JNull
   \<and> dict_get reserved_unnamed (lit ''date'') JNull = JNull
   \<and> base_refresh_from_api (HttpResponse 200 (Some (JObj reserved_unnamed)))
        ReservaAnteriorSensor
       = Inr \<lparr>attrs = [(lit ''nombre'', JNull), (lit ''cumpleanos'', JBool False),
                        (lit ''festivo'', JBool False), (lit ''foto_perfil_url'', JNull),
                        (lit ''fecha'', JNull)],
              state_writes = 1, native_value = JStr (lit ''Desconocido''),
              endpoint = lit ''/api/prev''\<rparr>"
proof -
  have h1: "truthy (dict_get reserved_unnamed (lit ''has_reservation'') JNull)"
    by (simp add: reserved_unnamed_def dict_get_def)
  have h2: "dict_get reserved_unnamed (lit ''user_name'') JNull = JNull"
    by (simp add: reserved_unnamed_def dict_get_def)
  have h3: "dict_get reserved_unnamed (lit ''date'') JNull = JNull"
    by (simp add: reserved_unnamed_def dict_get_def)
  show ?thesis
    using h1 h2 h3 C10_reserved_without_name_or_date [OF h1 h2 h3, of ReservaAnteriorSensor]
    by (simp add: base_refresh_from_api_def fetch_def py_or_def py_bool_def dict_get_def
          reserved_unnamed_def ReservaAnteriorSensor_def ReservaBase_def)
qed

end
